theory Spec2Isabelle
  imports Complex_Main
begin

section \<open>The arbitrage scanner: quotes, grouping and the opportunity engine\<close>

text \<open>
  A shallow embedding of \<^verbatim>\<open>src/arbitrage_scanner.py\<close>: the dataclass
  \<^verbatim>\<open>MarketPrice\<close> with its property \<^verbatim>\<open>mid\<close>, and the method
  \<^verbatim>\<open>ArbitrageEngine.process_prices\<close>.

  Conventions of the model:
  \<^item> a Python \<^verbatim>\<open>float\<close> is a real number: rounding, infinities and NaN are not
    represented; the one float operation of the engine that raises, division by
    zero, is an explicit error value;
  \<^item> a Python \<^verbatim>\<open>str\<close> is a \<open>string\<close>, the bytes of its UTF-8 encoding; the
    builtin \<^verbatim>\<open>str.lower\<close> is not code of the repository and is a parameter
    \<open>lower\<close> of the model, about which nothing is assumed;
  \<^item> a Python \<^verbatim>\<open>dict\<close> is an association list in insertion order, which is the
    order in which \<^verbatim>\<open>items()\<close> iterates; assigning to a key that is present
    replaces the value and keeps the key's position;
  \<^item> an uncaught exception is the left summand of the result type.
\<close>

subsection \<open>Data model\<close>

record MarketPrice =
  platform :: string
  event_id :: string
  event_name :: string
  outcome :: string
  bid :: real
  ask :: real
  timestamp :: real

text \<open>
  \<^verbatim>\<open>return (self.bid + self.ask) / 2 if self.bid and self.ask else 0.5\<close>:
  a float is truthy when it is not zero.
\<close>

definition mid :: "MarketPrice \<Rightarrow> real" where
  "mid p = (if bid p \<noteq> 0 \<and> ask p \<noteq> 0 then (bid p + ask p) / 2 else 0.5)"

text \<open>The dictionary that \<^verbatim>\<open>process_prices\<close> appends for an opportunity.\<close>

record Opportunity =
  event :: string
  buy_platform :: string
  buy_price :: real
  sell_platform :: string
  sell_price :: real
  net_spread :: real

text \<open>The attributes of an \<^verbatim>\<open>ArbitrageEngine\<close> object.\<close>

record ArbitrageEngine =
  min_spread :: real
  fee_pct :: real

text \<open>\<^verbatim>\<open>__init__(self, min_spread = 2.5)\<close> stores the threshold and sets the fee to 1.0.\<close>

definition init_engine :: "real \<Rightarrow> ArbitrageEngine" where
  "init_engine ms = \<lparr>min_spread = ms, fee_pct = 1.0\<rparr>"

definition MIN_SPREAD_PCT :: real where
  "MIN_SPREAD_PCT = 2.5"

datatype py_error = ZeroDivisionError

subsection \<open>Strings and dictionaries\<close>

text \<open>
  What \<^verbatim>\<open>str.lower\<close> does on a string of ASCII characters. It stands for the
  parameter \<open>lower\<close> in the runs on the example quotes below, whose event names
  are ASCII.
\<close>

definition upper_letters :: string where
  "upper_letters = ''ABCDEFGHIJKLMNOPQRSTUVWXYZ''"

definition lower_letters :: string where
  "lower_letters = ''abcdefghijklmnopqrstuvwxyz''"

definition lower_char :: "char \<Rightarrow> char" where
  "lower_char c = (case map_of (zip upper_letters lower_letters) c of Some d \<Rightarrow> d | None \<Rightarrow> c)"

definition ascii_lower :: "string \<Rightarrow> string" where
  "ascii_lower s = map lower_char s"

text \<open>\<^verbatim>\<open>key = f"{price.event_name.lower()}|{price.outcome}"\<close>\<close>

definition group_key :: "(string \<Rightarrow> string) \<Rightarrow> MarketPrice \<Rightarrow> string" where
  "group_key lower price = lower (event_name price) @ ''|'' @ outcome price"

text \<open>
  \<^verbatim>\<open>grouped[key].append(price)\<close> on a \<^verbatim>\<open>defaultdict(list)\<close>: a new key
  is added at the end with a one-element list, a present key keeps its place.
\<close>

fun dict_append :: "'k \<Rightarrow> 'v \<Rightarrow> ('k \<times> 'v list) list \<Rightarrow> ('k \<times> 'v list) list" where
  "dict_append k v [] = [(k, [v])]"
| "dict_append k v ((k', vs) # rest) =
     (if k = k' then (k', vs @ [v]) # rest else (k', vs) # dict_append k v rest)"

text \<open>\<^verbatim>\<open>d[k] = v\<close> on a plain dictionary.\<close>

fun dict_set :: "'k \<Rightarrow> 'v \<Rightarrow> ('k \<times> 'v) list \<Rightarrow> ('k \<times> 'v) list" where
  "dict_set k v [] = [(k, v)]"
| "dict_set k v ((k', v') # rest) =
     (if k = k' then (k', v) # rest else (k', v') # dict_set k v rest)"

text \<open>The first loop of \<^verbatim>\<open>process_prices\<close>, over the input in order.\<close>

definition group_prices ::
  "(string \<Rightarrow> string) \<Rightarrow> MarketPrice list \<Rightarrow> (string \<times> MarketPrice list) list" where
  "group_prices lower prices = foldl (\<lambda>grouped price. dict_append (group_key lower price) price grouped) [] prices"

text \<open>
  \<^verbatim>\<open>platforms = {p.platform: p for p in event_prices}\<close> followed by
  \<^verbatim>\<open>platform_list = list(platforms.items())\<close>.
\<close>

definition platform_items :: "MarketPrice list \<Rightarrow> (string \<times> MarketPrice) list" where
  "platform_items event_prices = foldl (\<lambda>platforms p. dict_set (platform p) p platforms) [] event_prices"

text \<open>
  The index pairs \<^verbatim>\<open>for i in range(len(l)): for j in range(i + 1, len(l))\<close>,
  as the pairs of elements they select, in the order the loops visit them.
\<close>

fun pairs :: "'a list \<Rightarrow> ('a \<times> 'a) list" where
  "pairs [] = []"
| "pairs (x # xs) = map (Pair x) xs @ pairs xs"

subsection \<open>The opportunity engine\<close>

text \<open>Python's \<^verbatim>\<open>/\<close> on floats raises when the divisor is zero.\<close>

definition py_truediv :: "real \<Rightarrow> real \<Rightarrow> py_error + real" where
  "py_truediv a b = (if b = 0 then Inl ZeroDivisionError else Inr (a / b))"

text \<open>\<^verbatim>\<open>net_spread = spread - (2 * self.fee_pct)\<close>\<close>

definition net_of :: "ArbitrageEngine \<Rightarrow> real \<Rightarrow> real" where
  "net_of eng spread = spread - 2 * fee_pct eng"

text \<open>
  The body of the inner loop for one pair of entries of \<^verbatim>\<open>platform_list\<close>:
  the result is the opportunity appended, if any, or the exception raised.
\<close>

definition compare_pair ::
  "ArbitrageEngine \<Rightarrow> string \<Rightarrow> string \<times> MarketPrice \<Rightarrow> string \<times> MarketPrice
     \<Rightarrow> py_error + Opportunity option" where
  "compare_pair eng event_key e1 e2 =
     (let p1_name = fst e1; p1 = snd e1;
          p2_name = fst e2; p2 = snd e2;
          price1 = mid p1;
          price2 = mid p2;
          swap = price1 > price2;
          price1' = (if swap then price2 else price1);
          price2' = (if swap then price1 else price2);
          p1_name' = (if swap then p2_name else p1_name);
          p2_name' = (if swap then p1_name else p2_name)
      in case py_truediv (price2' - price1') price1' of
           Inl e \<Rightarrow> Inl e
         | Inr quot \<Rightarrow>
             (let spread = quot * 100;
                  net_spread = net_of eng spread
              in if net_spread \<ge> min_spread eng
                 then Inr (Some \<lparr>event = event_key,
                                 buy_platform = p1_name', buy_price = price1',
                                 sell_platform = p2_name', sell_price = price2',
                                 net_spread = net_spread\<rparr>)
                 else Inr None))"

text \<open>The two nested index loops over one group, appending to \<^verbatim>\<open>opportunities\<close>.\<close>

fun scan_pairs ::
  "ArbitrageEngine \<Rightarrow> string \<Rightarrow> ((string \<times> MarketPrice) \<times> (string \<times> MarketPrice)) list
     \<Rightarrow> Opportunity list \<Rightarrow> py_error + Opportunity list" where
  "scan_pairs eng event_key [] opportunities = Inr opportunities"
| "scan_pairs eng event_key ((e1, e2) # rest) opportunities =
     (case compare_pair eng event_key e1 e2 of
        Inl err \<Rightarrow> Inl err
      | Inr None \<Rightarrow> scan_pairs eng event_key rest opportunities
      | Inr (Some opp) \<Rightarrow> scan_pairs eng event_key rest (opportunities @ [opp]))"

text \<open>The loop \<^verbatim>\<open>for event_key, event_prices in grouped.items()\<close>.\<close>

fun scan_groups ::
  "ArbitrageEngine \<Rightarrow> (string \<times> MarketPrice list) list \<Rightarrow> Opportunity list
     \<Rightarrow> py_error + Opportunity list" where
  "scan_groups eng [] opportunities = Inr opportunities"
| "scan_groups eng ((event_key, event_prices) # rest) opportunities =
     (if length event_prices < 2 then scan_groups eng rest opportunities
      else case scan_pairs eng event_key (pairs (platform_items event_prices)) opportunities of
             Inl err \<Rightarrow> Inl err
           | Inr opportunities' \<Rightarrow> scan_groups eng rest opportunities')"

definition process_prices ::
  "(string \<Rightarrow> string) \<Rightarrow> ArbitrageEngine \<Rightarrow> MarketPrice list \<Rightarrow> py_error + Opportunity list" where
  "process_prices lower eng prices = scan_groups eng (group_prices lower prices) []"

text \<open>
  The pairs that the nested loops range over for a given dictionary of groups, each
  with the key of its group, in the order of the iteration; \<open>pair_list\<close> is that
  list for the dictionary \<^verbatim>\<open>process_prices\<close> builds from its input. (The iteration
  itself stops at the first pair whose division raises.)
\<close>

definition group_pairs ::
  "(string \<times> MarketPrice list) list
     \<Rightarrow> (string \<times> (string \<times> MarketPrice) \<times> (string \<times> MarketPrice)) list" where
  "group_pairs grouped =
     concat (map (\<lambda>(event_key, event_prices).
                    if length event_prices < 2 then []
                    else map (Pair event_key) (pairs (platform_items event_prices)))
                 grouped)"

definition pair_list ::
  "(string \<Rightarrow> string) \<Rightarrow> MarketPrice list \<Rightarrow> (string \<times> (string \<times> MarketPrice) \<times> (string \<times> MarketPrice)) list" where
  "pair_list lower prices = group_pairs (group_prices lower prices)"

text \<open>What one pair adds to \<^verbatim>\<open>opportunities\<close>: one record or nothing.\<close>

definition pair_opps ::
  "ArbitrageEngine \<Rightarrow> string \<times> (string \<times> MarketPrice) \<times> (string \<times> MarketPrice)
     \<Rightarrow> Opportunity list" where
  "pair_opps eng t =
     (case compare_pair eng (fst t) (fst (snd t)) (snd (snd t)) of
        Inr (Some opp) \<Rightarrow> [opp]
      | _ \<Rightarrow> [])"

definition pair_raises ::
  "ArbitrageEngine \<Rightarrow> string \<times> (string \<times> MarketPrice) \<times> (string \<times> MarketPrice) \<Rightarrow> bool" where
  "pair_raises eng t \<longleftrightarrow>
     compare_pair eng (fst t) (fst (snd t)) (snd (snd t)) = Inl ZeroDivisionError"

subsection \<open>Example quotes\<close>

text \<open>Two platforms quoting the same event, with mid-prices 0.41 and 0.51.\<close>

definition quote_kalshi :: MarketPrice where
  "quote_kalshi = \<lparr>platform = ''Kalshi'', event_id = ''K-1'', event_name = ''Will It Rain'',
     outcome = ''YES'', bid = 0.40, ask = 0.42, timestamp = 0\<rparr>"

definition quote_polymarket :: MarketPrice where
  "quote_polymarket = \<lparr>platform = ''Polymarket'', event_id = ''P-1'', event_name = ''will it rain'',
     outcome = ''YES'', bid = 0.50, ask = 0.52, timestamp = 0\<rparr>"

text \<open>A later quote of the first platform for the same event, with mid-price 0.31.\<close>

definition quote_kalshi_late :: MarketPrice where
  "quote_kalshi_late = \<lparr>platform = ''Kalshi'', event_id = ''K-1'', event_name = ''Will it rain'',
     outcome = ''YES'', bid = 0.30, ask = 0.32, timestamp = 1\<rparr>"

text \<open>A quote with an unknown bid.\<close>

definition quote_no_bid :: MarketPrice where
  "quote_no_bid = \<lparr>platform = ''Kalshi'', event_id = ''K-2'', event_name = ''Will It Snow'',
     outcome = ''YES'', bid = 0, ask = 0.60, timestamp = 0\<rparr>"

text \<open>Quotes with a negative side: the first has mid-price 0, the others are negative.\<close>

definition quote_zero_mid :: MarketPrice where
  "quote_zero_mid = \<lparr>platform = ''Kalshi'', event_id = ''K-1'', event_name = ''Will It Rain'',
     outcome = ''YES'', bid = - 0.3, ask = 0.3, timestamp = 0\<rparr>"

definition quote_negative :: MarketPrice where
  "quote_negative = \<lparr>platform = ''Kalshi'', event_id = ''K-1'', event_name = ''Will It Rain'',
     outcome = ''YES'', bid = - 0.4, ask = - 0.4, timestamp = 1\<rparr>"

definition quote_negative_other :: MarketPrice where
  "quote_negative_other = \<lparr>platform = ''Polymarket'', event_id = ''P-1'', event_name = ''will it rain'',
     outcome = ''YES'', bid = - 0.2, ask = - 0.2, timestamp = 0\<rparr>"

text \<open>A negative quote of a third platform for the same event.\<close>

definition quote_negative_third :: MarketPrice where
  "quote_negative_third = \<lparr>platform = ''Opinion'', event_id = ''O-1'', event_name = ''WILL IT RAIN'',
     outcome = ''YES'', bid = - 0.4, ask = - 0.4, timestamp = 0\<rparr>"

text \<open>Two platforms quoting a second event, the first with mid-price 0.\<close>

definition quote_zero_snow :: MarketPrice where
  "quote_zero_snow = \<lparr>platform = ''Kalshi'', event_id = ''K-2'', event_name = ''Will It Snow'',
     outcome = ''YES'', bid = - 0.3, ask = 0.3, timestamp = 0\<rparr>"

definition quote_snow_other :: MarketPrice where
  "quote_snow_other = \<lparr>platform = ''Polymarket'', event_id = ''P-2'', event_name = ''will it snow'',
     outcome = ''YES'', bid = 0.50, ask = 0.52, timestamp = 0\<rparr>"

text \<open>Two quotes whose event names and outcomes differ and whose keys coincide.\<close>

definition quote_bar_in_name :: MarketPrice where
  "quote_bar_in_name = \<lparr>platform = ''Kalshi'', event_id = ''K-3'', event_name = ''x|y'',
     outcome = ''z'', bid = 0.40, ask = 0.42, timestamp = 0\<rparr>"

definition quote_bar_in_outcome :: MarketPrice where
  "quote_bar_in_outcome = \<lparr>platform = ''Polymarket'', event_id = ''P-3'', event_name = ''x'',
     outcome = ''y|z'', bid = 0.50, ask = 0.52, timestamp = 0\<rparr>"

section \<open>Properties\<close>

subsection \<open>The body of the pair loop\<close>

lemma py_error_eq: "(err :: py_error) = ZeroDivisionError"
  by (cases err)

lemma compare_pair_Inl_iff:
  "compare_pair eng k e1 e2 = Inl err \<longleftrightarrow> min (mid (snd e1)) (mid (snd e2)) = 0"
  by (cases err) (auto simp: compare_pair_def py_truediv_def Let_def min_def)

lemma compare_pair_Some_iff:
  "compare_pair eng k e1 e2 = Inr (Some opp) \<longleftrightarrow>
     min (mid (snd e1)) (mid (snd e2)) \<noteq> 0 \<and>
     min_spread eng \<le> net_of eng ((max (mid (snd e1)) (mid (snd e2)) - min (mid (snd e1)) (mid (snd e2))) / min (mid (snd e1)) (mid (snd e2)) * 100) \<and>
     opp = \<lparr>event = k,
            buy_platform = (if mid (snd e1) > mid (snd e2) then fst e2 else fst e1),
            buy_price = min (mid (snd e1)) (mid (snd e2)),
            sell_platform = (if mid (snd e1) > mid (snd e2) then fst e1 else fst e2),
            sell_price = max (mid (snd e1)) (mid (snd e2)),
            net_spread = net_of eng ((max (mid (snd e1)) (mid (snd e2)) - min (mid (snd e1)) (mid (snd e2))) / min (mid (snd e1)) (mid (snd e2)) * 100)\<rparr>"
  by (auto simp: compare_pair_def py_truediv_def Let_def min_def max_def)

subsection \<open>The loops as one pass over the list of pairs\<close>

lemma scan_pairs_eq:
  "scan_pairs eng k ps acc =
     (if \<exists>p\<in>set ps. pair_raises eng (k, p) then Inl ZeroDivisionError
      else Inr (acc @ concat (map (\<lambda>p. pair_opps eng (k, p)) ps)))"
proof (induction ps arbitrary: acc)
  case Nil
  then show ?case by simp
next
  case (Cons p ps)
  obtain e1 e2 where p: "p = (e1, e2)" by (cases p)
  show ?case
  proof (cases "compare_pair eng k e1 e2")
    case (Inl err)
    then show ?thesis using p py_error_eq [of err] by (simp add: pair_raises_def)
  next
    case (Inr r)
    then show ?thesis using p Cons.IH
      by (cases r) (simp_all add: pair_raises_def pair_opps_def)
  qed
qed

lemma group_pairs_Nil: "group_pairs [] = []"
  by (simp add: group_pairs_def)

lemma group_pairs_Cons:
  "group_pairs ((k, eps) # gs) =
     (if length eps < 2 then [] else map (Pair k) (pairs (platform_items eps))) @ group_pairs gs"
  by (simp add: group_pairs_def)

lemma scan_groups_eq:
  "scan_groups eng gs acc =
     (if \<exists>t\<in>set (group_pairs gs). pair_raises eng t then Inl ZeroDivisionError
      else Inr (acc @ concat (map (pair_opps eng) (group_pairs gs))))"
proof (induction gs arbitrary: acc)
  case Nil
  then show ?case by (simp add: group_pairs_Nil)
next
  case (Cons g gs)
  obtain k eps where g: "g = (k, eps)" by (cases g)
  show ?case
  proof (cases "length eps < 2")
    case True
    then show ?thesis using g Cons.IH by (simp add: group_pairs_Cons)
  next
    case False
    then show ?thesis using g Cons.IH
      by (auto simp: group_pairs_Cons scan_pairs_eq o_def)
  qed
qed

lemma process_prices_eq:
  "process_prices lower eng prices =
     (if \<exists>t\<in>set (pair_list lower prices). pair_raises eng t then Inl ZeroDivisionError
      else Inr (concat (map (pair_opps eng) (pair_list lower prices))))"
  by (simp add: process_prices_def pair_list_def scan_groups_eq)

subsection \<open>Dictionaries\<close>

lemma map_of_dict_append:
  "map_of (dict_append k v g) =
     (map_of g)(k \<mapsto> (case map_of g k of None \<Rightarrow> [v] | Some vs \<Rightarrow> vs @ [v]))"
  by (induction g) (auto simp: fun_eq_iff)

lemma keys_dict_append:
  "map fst (dict_append k v g) = (if k \<in> set (map fst g) then map fst g else map fst g @ [k])"
  by (induction g) (force+)

lemma distinct_dict_append:
  "distinct (map fst g) \<Longrightarrow> distinct (map fst (dict_append k v g))"
  by (simp add: keys_dict_append)

lemma map_of_dict_set: "map_of (dict_set k v d) = (map_of d)(k \<mapsto> v)"
  by (induction d) (auto simp: fun_eq_iff)

lemma keys_dict_set:
  "map fst (dict_set k v d) = (if k \<in> set (map fst d) then map fst d else map fst d @ [k])"
  by (induction d) (force+)

lemma distinct_dict_set:
  "distinct (map fst d) \<Longrightarrow> distinct (map fst (dict_set k v d))"
  by (simp add: keys_dict_set)

subsection \<open>Grouping\<close>

lemma group_prices_snoc:
  "group_prices lower (prices @ [p]) = dict_append (group_key lower p) p (group_prices lower prices)"
  by (simp add: group_prices_def)

lemma distinct_group_prices: "distinct (map fst (group_prices lower prices))"
proof (induction prices rule: rev_induct)
  case Nil
  then show ?case by (simp add: group_prices_def)
next
  case (snoc p prices)
  then show ?case by (simp only: group_prices_snoc distinct_dict_append)
qed

lemma map_of_group_prices:
  "map_of (group_prices lower prices) k =
     (if k \<in> group_key lower ` set prices then Some (filter (\<lambda>q. group_key lower q = k) prices) else None)"
proof (induction prices rule: rev_induct)
  case Nil
  then show ?case by (simp add: group_prices_def)
next
  case (snoc p prices)
  then show ?case
    by (auto simp: group_prices_snoc map_of_dict_append filter_empty_conv) (metis imageI)+
qed

lemma group_prices_mem:
  "(k, eps) \<in> set (group_prices lower prices) \<longleftrightarrow>
     k \<in> group_key lower ` set prices \<and> eps = filter (\<lambda>q. group_key lower q = k) prices"
proof -
  have "(k, eps) \<in> set (group_prices lower prices) \<longleftrightarrow> map_of (group_prices lower prices) k = Some eps"
    using distinct_group_prices by simp
  then show ?thesis by (auto simp: map_of_group_prices)
qed

subsection \<open>One quote per platform\<close>

lemma platform_items_snoc:
  "platform_items (eps @ [p]) = dict_set (platform p) p (platform_items eps)"
  by (simp add: platform_items_def)

lemma distinct_platform_items: "distinct (map fst (platform_items eps))"
proof (induction eps rule: rev_induct)
  case Nil
  then show ?case by (simp add: platform_items_def)
next
  case (snoc p eps)
  then show ?case by (simp only: platform_items_snoc distinct_dict_set)
qed

lemma map_of_platform_items:
  "map_of (platform_items eps) n =
     (if n \<in> platform ` set eps then Some (last (filter (\<lambda>q. platform q = n) eps)) else None)"
proof (induction eps rule: rev_induct)
  case Nil
  then show ?case by (simp add: platform_items_def)
next
  case (snoc p eps)
  then show ?case
    by (auto simp: platform_items_snoc map_of_dict_set filter_empty_conv)
qed

lemma platform_items_mem:
  "(n, q) \<in> set (platform_items eps) \<longleftrightarrow>
     n \<in> platform ` set eps \<and> q = last (filter (\<lambda>q. platform q = n) eps)"
proof -
  have "(n, q) \<in> set (platform_items eps) \<longleftrightarrow> map_of (platform_items eps) n = Some q"
    using distinct_platform_items by simp
  then show ?thesis by (auto simp: map_of_platform_items)
qed

lemma keys_platform_items: "set (map fst (platform_items eps)) = platform ` set eps"
proof -
  have "fst ` set (platform_items eps) = platform ` set eps"
    by (auto simp: platform_items_mem image_iff) (metis fst_conv platform_items_mem image_iff)+
  then show ?thesis by simp
qed

lemma length_platform_items: "length (platform_items eps) = card (platform ` set eps)"
proof -
  have "length (platform_items eps) = length (map fst (platform_items eps))" by simp
  also have "\<dots> = card (set (map fst (platform_items eps)))"
    using distinct_platform_items by (simp only: distinct_card)
  finally show ?thesis by (simp only: keys_platform_items)
qed

subsection \<open>Pairs\<close>

lemma pairs_subset: "(a, b) \<in> set (pairs xs) \<Longrightarrow> a \<in> set xs \<and> b \<in> set xs"
  by (induction xs) auto

lemma pairs_distinct_keys:
  "distinct (map fst xs) \<Longrightarrow> (a, b) \<in> set (pairs xs) \<Longrightarrow> fst a \<noteq> fst b"
  by (induction xs) (auto dest: pairs_subset)

lemma pairs_short: "length xs < 2 \<Longrightarrow> pairs xs = []"
  by (cases xs) auto

subsection \<open>The pairs compared\<close>

lemma pair_list_mem:
  "(k, e1, e2) \<in> set (pair_list lower prices) \<longleftrightarrow>
     (\<exists>eps. (k, eps) \<in> set (group_prices lower prices) \<and> \<not> length eps < 2 \<and>
            (e1, e2) \<in> set (pairs (platform_items eps)))"
  by (force simp: pair_list_def group_pairs_def split: if_splits)

lemma last_filter:
  "filter P xs \<noteq> [] \<Longrightarrow> last (filter P xs) \<in> set xs \<and> P (last (filter P xs))"
  using last_in_set [of "filter P xs"] by auto

lemma group_entry:
  assumes g: "(k, eps) \<in> set (group_prices lower prices)"
      and e: "(n, p) \<in> set (platform_items eps)"
  shows "p = last (filter (\<lambda>q. group_key lower q = k \<and> platform q = n) prices) \<and>
         p \<in> set prices \<and> group_key lower p = k \<and> platform p = n"
proof -
  from g have eps: "eps = filter (\<lambda>q. group_key lower q = k) prices"
    by (simp add: group_prices_mem)
  from e have n: "n \<in> platform ` set eps" and p: "p = last (filter (\<lambda>q. platform q = n) eps)"
    by (simp_all add: platform_items_mem)
  have ff: "filter (\<lambda>q. platform q = n) eps = filter (\<lambda>q. group_key lower q = k \<and> platform q = n) prices"
    by (simp add: eps)
  from n have ne: "filter (\<lambda>q. group_key lower q = k \<and> platform q = n) prices \<noteq> []"
    unfolding ff [symmetric] by (auto simp: filter_empty_conv)
  from last_filter [OF ne] p ff show ?thesis by simp
qed

lemma pair_list_entry:
  assumes "(k, (n1, p1), (n2, p2)) \<in> set (pair_list lower prices)"
  shows "n1 \<noteq> n2"
    and "p1 = last (filter (\<lambda>q. group_key lower q = k \<and> platform q = n1) prices)"
    and "p2 = last (filter (\<lambda>q. group_key lower q = k \<and> platform q = n2) prices)"
    and "p1 \<in> set prices" and "p2 \<in> set prices"
    and "group_key lower p1 = k" and "group_key lower p2 = k"
    and "platform p1 = n1" and "platform p2 = n2"
proof -
  from assms obtain eps where g: "(k, eps) \<in> set (group_prices lower prices)"
    and pr: "((n1, p1), (n2, p2)) \<in> set (pairs (platform_items eps))"
    by (auto simp: pair_list_mem)
  from pr have m1: "(n1, p1) \<in> set (platform_items eps)" and m2: "(n2, p2) \<in> set (platform_items eps)"
    by (auto dest: pairs_subset)
  from pairs_distinct_keys [OF distinct_platform_items pr] show "n1 \<noteq> n2" by simp
  from group_entry [OF g m1] show "p1 = last (filter (\<lambda>q. group_key lower q = k \<and> platform q = n1) prices)"
    "p1 \<in> set prices" "group_key lower p1 = k" "platform p1 = n1" by blast+
  from group_entry [OF g m2] show "p2 = last (filter (\<lambda>q. group_key lower q = k \<and> platform q = n2) prices)"
    "p2 \<in> set prices" "group_key lower p2 = k" "platform p2 = n2" by blast+
qed

lemma pairs_complete:
  "a \<in> set xs \<Longrightarrow> b \<in> set xs \<Longrightarrow> a \<noteq> b \<Longrightarrow> (a, b) \<in> set (pairs xs) \<or> (b, a) \<in> set (pairs xs)"
  by (induction xs) auto

subsection \<open>What a call returns\<close>

lemma process_prices_Inr:
  assumes "process_prices lower eng prices = Inr opps"
  shows "opps = concat (map (pair_opps eng) (pair_list lower prices))"
    and "\<forall>t\<in>set (pair_list lower prices). \<not> pair_raises eng t"
  using assms by (simp_all add: process_prices_eq split: if_splits)

lemma mem_pair_opps:
  "opp \<in> set (pair_opps eng (k, e1, e2)) \<longleftrightarrow> compare_pair eng k e1 e2 = Inr (Some opp)"
  by (auto simp: pair_opps_def split: sum.splits option.splits)

lemma mem_opps:
  assumes "process_prices lower eng prices = Inr opps"
  shows "opp \<in> set opps \<longleftrightarrow>
           (\<exists>k e1 e2. (k, e1, e2) \<in> set (pair_list lower prices) \<and> compare_pair eng k e1 e2 = Inr (Some opp))"
proof -
  have "opp \<in> set opps \<longleftrightarrow> (\<exists>t\<in>set (pair_list lower prices). opp \<in> set (pair_opps eng t))"
    by (simp add: process_prices_Inr(1) [OF assms])
  also have "\<dots> \<longleftrightarrow> (\<exists>k e1 e2. (k, e1, e2) \<in> set (pair_list lower prices) \<and> opp \<in> set (pair_opps eng (k, e1, e2)))"
    by (metis prod_cases3)
  finally show ?thesis by (simp only: mem_pair_opps)
qed

lemma pair_raises_iff:
  "pair_raises eng (k, e1, e2) \<longleftrightarrow> min (mid (snd e1)) (mid (snd e2)) = 0"
  by (simp add: pair_raises_def compare_pair_Inl_iff)

subsection \<open>Keys\<close>

lemma key_split:
  "xs @ c # o1 = ys @ c # o2 \<Longrightarrow> c \<notin> set o1 \<Longrightarrow> c \<notin> set o2 \<Longrightarrow> xs = ys \<and> o1 = o2"
proof (induction xs arbitrary: ys)
  case Nil
  then show ?case by (cases ys) auto
next
  case (Cons x xs)
  then show ?case by (cases ys) auto
qed

lemma group_key_inj:
  assumes "group_key lower p1 = group_key lower p2"
      and "CHR ''|'' \<notin> set (outcome p1)" and "CHR ''|'' \<notin> set (outcome p2)"
  shows "lower (event_name p1) = lower (event_name p2) \<and> outcome p1 = outcome p2"
  using assms key_split [of "lower (event_name p1)" "CHR ''|''" "outcome p1"
      "lower (event_name p2)" "outcome p2"]
  by (simp add: group_key_def)

lemma mid_pos: "0 \<le> bid q \<Longrightarrow> 0 \<le> ask q \<Longrightarrow> 0 < mid q"
  by (auto simp: mid_def)

subsection \<open>Groups and the pairs they contribute\<close>

lemma two_elems_length: "a \<in> set xs \<Longrightarrow> b \<in> set xs \<Longrightarrow> a \<noteq> b \<Longrightarrow> \<not> length xs < 2"
  by (cases xs) auto

lemma group_of_quote:
  "q \<in> set prices \<Longrightarrow>
     (group_key lower q, filter (\<lambda>r. group_key lower r = group_key lower q) prices) \<in> set (group_prices lower prices)"
  by (simp add: group_prices_mem)

lemma no_pair_for_small_group:
  assumes few: "card (platform ` {q \<in> set prices. group_key lower q = k}) < 2"
  shows "(k, e1, e2) \<notin> set (pair_list lower prices)"
proof
  assume "(k, e1, e2) \<in> set (pair_list lower prices)"
  then obtain eps where g: "(k, eps) \<in> set (group_prices lower prices)"
    and pr: "(e1, e2) \<in> set (pairs (platform_items eps))"
    by (auto simp: pair_list_mem)
  from g have "set eps = {q \<in> set prices. group_key lower q = k}"
    by (auto simp: group_prices_mem)
  with few have "length (platform_items eps) < 2"
    by (simp add: length_platform_items)
  then have "pairs (platform_items eps) = []" by (rule pairs_short)
  with pr show False by simp
qed

subsection \<open>What a returned list holds for one pair\<close>

lemma returns_if_no_zero:
  assumes "\<forall>(k, e1, e2)\<in>set (pair_list lower prices). min (mid (snd e1)) (mid (snd e2)) \<noteq> 0"
  shows "process_prices lower eng prices = Inr (concat (map (pair_opps eng) (pair_list lower prices)))"
proof -
  from assms have "\<forall>t\<in>set (pair_list lower prices). \<not> pair_raises eng t"
    by (simp add: pair_raises_def compare_pair_Inl_iff split_beta)
  then show ?thesis by (simp add: process_prices_eq)
qed

lemma pair_emission:
  assumes run: "process_prices lower eng prices = Inr opps"
      and pair: "(k, (n1, p1), (n2, p2)) \<in> set (pair_list lower prices)"
      and b: "b = min (mid p1) (mid p2)" and s: "s = max (mid p1) (mid p2)"
  shows "((\<exists>opp\<in>set opps. event opp = k \<and> {buy_platform opp, sell_platform opp} = {n1, n2})
            \<longleftrightarrow> ((s - b) / b) * 100 - 2 * fee_pct eng \<ge> min_spread eng) \<and>
         (\<forall>opp\<in>set opps. event opp = k \<and> {buy_platform opp, sell_platform opp} = {n1, n2}
            \<longrightarrow> net_spread opp = ((s - b) / b) * 100 - 2 * fee_pct eng \<and>
                buy_price opp = b \<and> sell_price opp = s)"
proof -
  let ?net = "((s - b) / b) * 100 - 2 * fee_pct eng"
  from process_prices_Inr(2) [OF run] pair have "\<not> pair_raises eng (k, (n1, p1), (n2, p2))"
    by blast
  with b have nz: "b \<noteq> 0" by (simp add: pair_raises_iff)
  have found: "min_spread eng \<le> ?net \<and> net_spread opp = ?net \<and> buy_price opp = b \<and> sell_price opp = s"
    if mem: "opp \<in> set opps" and ev: "event opp = k"
      and pl: "{buy_platform opp, sell_platform opp} = {n1, n2}" for opp
  proof -
    from mem_opps [OF run] mem obtain k' e1 e2 where
      in_list: "(k', e1, e2) \<in> set (pair_list lower prices)" and
      c: "compare_pair eng k' e1 e2 = Inr (Some opp)" by blast
    obtain m1 r1 m2 r2 where e: "e1 = (m1, r1)" "e2 = (m2, r2)" by (cases e1, cases e2) auto
    from c e have k': "k' = k" using ev by (simp add: compare_pair_Some_iff)
    from c e have "{buy_platform opp, sell_platform opp} = {m1, m2}"
      by (auto simp: compare_pair_Some_iff)
    with pl have "m1 = n1 \<and> m2 = n2 \<or> m1 = n2 \<and> m2 = n1"
      by (auto simp: doubleton_eq_iff)
    moreover have "r1 = last (filter (\<lambda>q. group_key lower q = k \<and> platform q = m1) prices)"
      "r2 = last (filter (\<lambda>q. group_key lower q = k \<and> platform q = m2) prices)"
      using in_list e k' pair_list_entry(2,3) [of k m1 r1 m2 r2 lower prices] by simp_all
    moreover have "p1 = last (filter (\<lambda>q. group_key lower q = k \<and> platform q = n1) prices)"
      "p2 = last (filter (\<lambda>q. group_key lower q = k \<and> platform q = n2) prices)"
      using pair pair_list_entry(2,3) [of k n1 p1 n2 p2 lower prices] by simp_all
    ultimately have "r1 = p1 \<and> r2 = p2 \<or> r1 = p2 \<and> r2 = p1" by auto
    then have "min (mid r1) (mid r2) = b \<and> max (mid r1) (mid r2) = s"
      using b s by (auto simp: min.commute max.commute)
    with c e show ?thesis
      by (simp add: compare_pair_Some_iff net_of_def)
  qed
  have emit: "\<exists>opp\<in>set opps. event opp = k \<and> {buy_platform opp, sell_platform opp} = {n1, n2}"
    if ge: "min_spread eng \<le> ?net"
  proof -
    define opp where "opp = \<lparr>event = k,
            buy_platform = (if mid p1 > mid p2 then n2 else n1),
            buy_price = min (mid p1) (mid p2),
            sell_platform = (if mid p1 > mid p2 then n1 else n2),
            sell_price = max (mid p1) (mid p2),
            net_spread = net_of eng ((max (mid p1) (mid p2) - min (mid p1) (mid p2)) / min (mid p1) (mid p2) * 100)\<rparr>"
    from ge nz b s have "compare_pair eng k (n1, p1) (n2, p2) = Inr (Some opp)"
      by (simp add: compare_pair_Some_iff opp_def net_of_def)
    with pair mem_opps [OF run, of opp] have "opp \<in> set opps" by blast
    moreover have "event opp = k \<and> {buy_platform opp, sell_platform opp} = {n1, n2}"
      by (auto simp: opp_def)
    ultimately show ?thesis by blast
  qed
  from found emit show ?thesis by blast
qed

lemma last_quotes_paired:
  assumes q1: "q1 \<in> set prices" and q2: "q2 \<in> set prices"
      and same: "group_key lower q2 = group_key lower q1"
      and ne: "platform q1 \<noteq> platform q2"
      and l1: "q1 = last (filter (\<lambda>r. group_key lower r = group_key lower q1 \<and> platform r = platform q1) prices)"
      and l2: "q2 = last (filter (\<lambda>r. group_key lower r = group_key lower q1 \<and> platform r = platform q2) prices)"
  shows "(group_key lower q1, (platform q1, q1), (platform q2, q2)) \<in> set (pair_list lower prices) \<or>
         (group_key lower q1, (platform q2, q2), (platform q1, q1)) \<in> set (pair_list lower prices)"
proof -
  define k where "k = group_key lower q1"
  define eps where "eps = filter (\<lambda>r. group_key lower r = k) prices"
  from q1 have g: "(k, eps) \<in> set (group_prices lower prices)"
    unfolding k_def eps_def by (rule group_of_quote)
  from q1 q2 same have in_eps: "q1 \<in> set eps" "q2 \<in> set eps"
    by (simp_all add: eps_def k_def)
  have ff: "filter (\<lambda>r. platform r = n) eps = filter (\<lambda>r. group_key lower r = k \<and> platform r = n) prices" for n
    by (simp add: eps_def)
  from in_eps l1 l2 have m: "(platform q1, q1) \<in> set (platform_items eps)"
    "(platform q2, q2) \<in> set (platform_items eps)"
    by (simp_all add: platform_items_mem ff k_def)
  from ne have "(platform q1, q1) \<noteq> (platform q2, q2)" by simp
  from pairs_complete [OF m this]
  have "((platform q1, q1), (platform q2, q2)) \<in> set (pairs (platform_items eps)) \<or>
        ((platform q2, q2), (platform q1, q1)) \<in> set (pairs (platform_items eps))" .
  moreover from ne have "q1 \<noteq> q2" by auto
  with in_eps have "\<not> length eps < 2" by (rule two_elems_length)
  ultimately show ?thesis using g unfolding k_def by (auto simp: pair_list_mem)
qed

lemma emitted_positive:
  assumes c: "compare_pair eng k e1 e2 = Inr (Some opp)"
      and thr: "- 2 * fee_pct eng < min_spread eng"
  shows "0 < buy_price opp \<and> buy_price opp < sell_price opp"
proof -
  define b where "b = min (mid (snd e1)) (mid (snd e2))"
  define s where "s = max (mid (snd e1)) (mid (snd e2))"
  from c have nz: "b \<noteq> 0" and ge: "min_spread eng \<le> net_of eng ((s - b) / b * 100)"
    and bp: "buy_price opp = b" and sp: "sell_price opp = s"
    by (simp_all add: compare_pair_Some_iff b_def s_def)
  have le: "b \<le> s" by (simp add: b_def s_def)
  define x where "x = (s - b) / b"
  from ge have "min_spread eng \<le> x * 100 - 2 * fee_pct eng"
    by (simp only: net_of_def x_def)
  with thr have "0 < x" by linarith
  then have "0 < (s - b) / b" by (simp only: x_def)
  with le nz have "0 < b \<and> b < s"
    by (auto simp: zero_less_divide_iff)
  with bp sp show ?thesis by simp
qed

subsection \<open>Unfolding a run on a concrete input\<close>

lemmas string_defs = group_key_def ascii_lower_def lower_char_def upper_letters_def lower_letters_def

lemmas loop_defs = process_prices_def group_prices_def platform_items_def pair_list_def group_pairs_def

lemmas body_defs = compare_pair_def mid_def py_truediv_def net_of_def init_engine_def MIN_SPREAD_PCT_def

section \<open>The claims\<close>

subsection \<open>The mid-price\<close>

text \<open>
  Claim C7. The mid-price of a quote is \<open>(bid + ask) / 2\<close> when both sides are
  non-zero, and the neutral default 0.5 when either side is zero. (The fields are
  floats: a side that is unknown is a zero; there is no other missing value.)
\<close>

theorem mid_price_rule:
  "(bid p \<noteq> 0 \<and> ask p \<noteq> 0 \<longrightarrow> mid p = (bid p + ask p) / 2) \<and>
   (bid p = 0 \<or> ask p = 0 \<longrightarrow> mid p = 0.5)"
  by (simp add: mid_def)

theorem mid_price_rule_witness:
  "mid quote_kalshi = (0.40 + 0.42) / 2 \<and> mid quote_no_bid = 0.5"
proof -
  have "bid quote_kalshi \<noteq> 0 \<and> ask quote_kalshi \<noteq> 0" by (simp add: quote_kalshi_def quote_no_bid_def)
  moreover have "bid quote_no_bid = 0 \<or> ask quote_no_bid = 0" by (simp add: quote_kalshi_def quote_no_bid_def)
  ultimately show ?thesis
    using mid_price_rule [of quote_kalshi] mid_price_rule [of quote_no_bid]
    by (simp add: quote_kalshi_def quote_no_bid_def)
qed

text \<open>
  Claim C10. When every quote of the input has a non-negative bid and a non-negative
  ask, every mid-price is strictly positive, so no pair has a zero divisor and
  \<^verbatim>\<open>process_prices\<close> returns a list.
\<close>

theorem nonnegative_quotes_total:
  assumes "\<forall>q\<in>set prices. 0 \<le> bid q \<and> 0 \<le> ask q"
  shows "(\<forall>q\<in>set prices. 0 < mid q) \<and>
         (\<forall>(k, e1, e2)\<in>set (pair_list lower prices). min (mid (snd e1)) (mid (snd e2)) \<noteq> 0) \<and>
         (\<exists>opps. process_prices lower eng prices = Inr opps)"
proof -
  from assms have pos: "\<forall>q\<in>set prices. 0 < mid q" by (simp add: mid_pos)
  have nz: "min (mid (snd e1)) (mid (snd e2)) \<noteq> 0" if "(k, e1, e2) \<in> set (pair_list lower prices)" for k e1 e2
  proof -
    obtain n1 p1 n2 p2 where e: "e1 = (n1, p1)" "e2 = (n2, p2)" by (cases e1, cases e2) auto
    from that e pair_list_entry(4,5) [of k n1 p1 n2 p2 lower prices] have "p1 \<in> set prices" "p2 \<in> set prices"
      by simp_all
    with pos have "0 < mid p1" "0 < mid p2" by simp_all
    with e show ?thesis by (simp add: min_def)
  qed
  then have "\<forall>t\<in>set (pair_list lower prices). \<not> pair_raises eng t"
    by (auto simp: pair_raises_iff)
  then have "\<exists>opps. process_prices lower eng prices = Inr opps"
    by (simp add: process_prices_eq)
  with pos nz show ?thesis by auto
qed

theorem nonnegative_quotes_total_witness:
  "0 < mid quote_kalshi \<and> 0 < mid quote_no_bid \<and>
   (\<exists>opps. process_prices ascii_lower (init_engine MIN_SPREAD_PCT)
              [quote_kalshi, quote_no_bid, quote_polymarket] = Inr opps)"
proof -
  have "\<forall>q\<in>set [quote_kalshi, quote_no_bid, quote_polymarket]. 0 \<le> bid q \<and> 0 \<le> ask q"
    by (simp add: quote_kalshi_def quote_polymarket_def quote_no_bid_def)
  from nonnegative_quotes_total [OF this, where lower = ascii_lower and eng = "init_engine MIN_SPREAD_PCT"]
  show ?thesis by simp
qed

subsection \<open>Division by zero and negative prices\<close>

text \<open>
  Claim C1, as amended. The division by the buy price has no guard: a call raises
  ZeroDivisionError exactly when some pair it ranges over has lower mid-price 0, and
  it returns a list exactly when no pair has. The pair is not skipped.
\<close>

theorem process_prices_raises_iff:
  "(process_prices lower eng prices = Inl ZeroDivisionError \<longleftrightarrow>
      (\<exists>(k, e1, e2)\<in>set (pair_list lower prices). min (mid (snd e1)) (mid (snd e2)) = 0)) \<and>
   ((\<exists>opps. process_prices lower eng prices = Inr opps) \<longleftrightarrow>
      (\<forall>(k, e1, e2)\<in>set (pair_list lower prices). min (mid (snd e1)) (mid (snd e2)) \<noteq> 0))"
  by (simp add: process_prices_eq pair_raises_def compare_pair_Inl_iff split_beta)

theorem process_prices_raises_iff_witness:
  "process_prices ascii_lower (init_engine MIN_SPREAD_PCT) [quote_zero_mid, quote_polymarket, quote_no_bid]
     = Inl ZeroDivisionError \<and>
   (\<exists>opps. process_prices ascii_lower (init_engine MIN_SPREAD_PCT) [quote_kalshi, quote_polymarket] = Inr opps)"
proof -
  have "\<exists>(k, e1, e2)\<in>set (pair_list ascii_lower [quote_zero_mid, quote_polymarket, quote_no_bid]).
          min (mid (snd e1)) (mid (snd e2)) = 0"
    by (simp add: string_defs loop_defs quote_kalshi_def quote_polymarket_def quote_no_bid_def quote_zero_mid_def mid_def)
  moreover have "\<forall>(k, e1, e2)\<in>set (pair_list ascii_lower [quote_kalshi, quote_polymarket]).
          min (mid (snd e1)) (mid (snd e2)) \<noteq> 0"
    by (simp add: string_defs loop_defs quote_kalshi_def quote_polymarket_def quote_no_bid_def quote_zero_mid_def mid_def)
  ultimately show ?thesis
    using process_prices_raises_iff [where lower = ascii_lower and eng = "init_engine MIN_SPREAD_PCT"
        and prices = "[quote_zero_mid, quote_polymarket, quote_no_bid]"]
      process_prices_raises_iff [where lower = ascii_lower and eng = "init_engine MIN_SPREAD_PCT"
        and prices = "[quote_kalshi, quote_polymarket]"]
    by blast
qed

text \<open>
  Claim C1 as stated fails: a quote with bid -0.3 and ask 0.3 has mid-price 0, it is
  the buy side of its pair, and the call raises instead of skipping the pair.
\<close>

theorem zero_buy_price_raises:
  "min (mid quote_zero_mid) (mid quote_polymarket) = 0 \<and>
   pair_list ascii_lower [quote_zero_mid, quote_polymarket] =
     [(''will it rain|YES'', (''Kalshi'', quote_zero_mid), (''Polymarket'', quote_polymarket))] \<and>
   process_prices ascii_lower (init_engine MIN_SPREAD_PCT) [quote_zero_mid, quote_polymarket]
     = Inl ZeroDivisionError"
  by (simp add: string_defs loop_defs body_defs quote_polymarket_def quote_zero_mid_def)

text \<open>
  Claim C2, as amended. No quote is excluded because of its mid-price. On an input
  where no pair has lower mid-price 0 the call returns a list, and for a quote with
  a negative mid-price that is the last quote of its platform for its key, and the
  last quote of any other platform for that key: the list holds an opportunity for
  the two exactly when the net spread computed from their mid-prices reaches the
  threshold, and that opportunity carries the negative price as its buy price. Only
  the threshold keeps negative prices out of the result: when it exceeds
  \<open>- 2 * fee_pct\<close> (as the defaults 2.5 and 1.0 do), every opportunity of the list
  has a strictly positive buy price, strictly below its sell price.
\<close>

theorem negative_mid_takes_part:
  assumes nz: "\<forall>(k, e1, e2)\<in>set (pair_list lower prices). min (mid (snd e1)) (mid (snd e2)) \<noteq> 0"
  shows "\<exists>opps. process_prices lower eng prices = Inr opps \<and>
     (\<forall>q1\<in>set prices. \<forall>q2\<in>set prices.
        mid q1 < 0 \<and> group_key lower q2 = group_key lower q1 \<and> platform q1 \<noteq> platform q2 \<and>
        q1 = last (filter (\<lambda>r. group_key lower r = group_key lower q1 \<and> platform r = platform q1) prices) \<and>
        q2 = last (filter (\<lambda>r. group_key lower r = group_key lower q1 \<and> platform r = platform q2) prices)
        \<longrightarrow>
          ((\<exists>opp\<in>set opps. event opp = group_key lower q1 \<and>
                {buy_platform opp, sell_platform opp} = {platform q1, platform q2})
             \<longleftrightarrow> min_spread eng \<le>
                   ((max (mid q1) (mid q2) - min (mid q1) (mid q2)) / min (mid q1) (mid q2)) * 100
                     - 2 * fee_pct eng) \<and>
          (\<forall>opp\<in>set opps. event opp = group_key lower q1 \<and>
                {buy_platform opp, sell_platform opp} = {platform q1, platform q2}
             \<longrightarrow> buy_price opp = min (mid q1) (mid q2) \<and> buy_price opp < 0 \<and>
                 sell_price opp = max (mid q1) (mid q2))) \<and>
     (- 2 * fee_pct eng < min_spread eng \<longrightarrow>
        (\<forall>opp\<in>set opps. 0 < buy_price opp \<and> buy_price opp < sell_price opp))"
proof -
  define opps where "opps = concat (map (pair_opps eng) (pair_list lower prices))"
  from returns_if_no_zero [OF nz] have run: "process_prices lower eng prices = Inr opps"
    by (simp only: opps_def)
  have A: "((\<exists>opp\<in>set opps. event opp = group_key lower q1 \<and>
                {buy_platform opp, sell_platform opp} = {platform q1, platform q2})
             \<longleftrightarrow> min_spread eng \<le>
                   ((max (mid q1) (mid q2) - min (mid q1) (mid q2)) / min (mid q1) (mid q2)) * 100
                     - 2 * fee_pct eng) \<and>
          (\<forall>opp\<in>set opps. event opp = group_key lower q1 \<and>
                {buy_platform opp, sell_platform opp} = {platform q1, platform q2}
             \<longrightarrow> buy_price opp = min (mid q1) (mid q2) \<and> buy_price opp < 0 \<and>
                 sell_price opp = max (mid q1) (mid q2))"
    if q1: "q1 \<in> set prices" and q2: "q2 \<in> set prices" and neg: "mid q1 < 0"
      and same: "group_key lower q2 = group_key lower q1" and ne: "platform q1 \<noteq> platform q2"
      and l1: "q1 = last (filter (\<lambda>r. group_key lower r = group_key lower q1 \<and> platform r = platform q1) prices)"
      and l2: "q2 = last (filter (\<lambda>r. group_key lower r = group_key lower q1 \<and> platform r = platform q2) prices)"
    for q1 q2
  proof -
    from neg have lt: "min (mid q1) (mid q2) < 0" by (simp add: min_def)
    from last_quotes_paired [OF q1 q2 same ne l1 l2]
    show ?thesis
    proof
      assume "(group_key lower q1, (platform q1, q1), (platform q2, q2)) \<in> set (pair_list lower prices)"
      from pair_emission [OF run this refl refl] lt show ?thesis by simp
    next
      assume "(group_key lower q1, (platform q2, q2), (platform q1, q1)) \<in> set (pair_list lower prices)"
      from pair_emission [OF run this refl refl] lt show ?thesis
        by (simp add: min.commute max.commute insert_commute)
    qed
  qed
  have B: "0 < buy_price opp \<and> buy_price opp < sell_price opp"
    if thr: "- 2 * fee_pct eng < min_spread eng" and mem: "opp \<in> set opps" for opp
  proof -
    from mem_opps [OF run] mem obtain k e1 e2 where
      "compare_pair eng k e1 e2 = Inr (Some opp)" by blast
    then show ?thesis using thr by (rule emitted_positive)
  qed
  from A have A': "\<forall>q1\<in>set prices. \<forall>q2\<in>set prices.
        mid q1 < 0 \<and> group_key lower q2 = group_key lower q1 \<and> platform q1 \<noteq> platform q2 \<and>
        q1 = last (filter (\<lambda>r. group_key lower r = group_key lower q1 \<and> platform r = platform q1) prices) \<and>
        q2 = last (filter (\<lambda>r. group_key lower r = group_key lower q1 \<and> platform r = platform q2) prices)
        \<longrightarrow>
          ((\<exists>opp\<in>set opps. event opp = group_key lower q1 \<and>
                {buy_platform opp, sell_platform opp} = {platform q1, platform q2})
             \<longleftrightarrow> min_spread eng \<le>
                   ((max (mid q1) (mid q2) - min (mid q1) (mid q2)) / min (mid q1) (mid q2)) * 100
                     - 2 * fee_pct eng) \<and>
          (\<forall>opp\<in>set opps. event opp = group_key lower q1 \<and>
                {buy_platform opp, sell_platform opp} = {platform q1, platform q2}
             \<longrightarrow> buy_price opp = min (mid q1) (mid q2) \<and> buy_price opp < 0 \<and>
                 sell_price opp = max (mid q1) (mid q2))"
    by (intro ballI impI) (elim conjE, rule A, assumption+)
  from B have B': "- 2 * fee_pct eng < min_spread eng \<longrightarrow>
        (\<forall>opp\<in>set opps. 0 < buy_price opp \<and> buy_price opp < sell_price opp)"
    by (intro impI ballI)
  from run A' B' show ?thesis by (intro exI [of _ opps] conjI)
qed

theorem negative_mid_takes_part_witness:
  "(\<exists>opps. process_prices ascii_lower \<lparr>min_spread = - 100, fee_pct = 1\<rparr>
              [quote_negative, quote_negative_other] = Inr opps \<and>
           (\<exists>opp. opp \<in> set opps \<and> event opp = ''will it rain|YES'' \<and>
                  {buy_platform opp, sell_platform opp} = {''Kalshi'', ''Polymarket''} \<and>
                  buy_price opp = - 0.4 \<and> buy_price opp < 0 \<and> sell_price opp = - 0.2)) \<and>
   process_prices ascii_lower (init_engine MIN_SPREAD_PCT)
       [quote_kalshi, quote_polymarket, quote_negative_third] =
     Inr [\<lparr>event = ''will it rain|YES'', buy_platform = ''Kalshi'', buy_price = 0.41,
           sell_platform = ''Polymarket'', sell_price = 0.51, net_spread = 918 / 41\<rparr>] \<and>
   0 < buy_price \<lparr>event = ''will it rain|YES'', buy_platform = ''Kalshi'', buy_price = 0.41,
           sell_platform = ''Polymarket'', sell_price = 0.51, net_spread = 918 / 41\<rparr>"
proof -
  let ?neg = "[quote_negative, quote_negative_other]"
  let ?low = "\<lparr>min_spread = - 100, fee_pct = 1\<rparr>"
  let ?k = "''will it rain|YES''"
  have mids: "mid quote_negative = - 0.4" "mid quote_negative_other = - 0.2"
    by (simp_all add: mid_def quote_negative_def quote_negative_other_def)
  have keys: "group_key ascii_lower quote_negative = ?k" "group_key ascii_lower quote_negative_other = ?k"
    by (simp_all add: string_defs quote_negative_def quote_negative_other_def)
  have plat: "platform quote_negative = ''Kalshi''" "platform quote_negative_other = ''Polymarket''"
    by (simp_all add: quote_negative_def quote_negative_other_def)
  have pl: "pair_list ascii_lower ?neg =
      [(?k, (''Kalshi'', quote_negative), (''Polymarket'', quote_negative_other))]"
    by (simp add: string_defs loop_defs quote_negative_def quote_negative_other_def)
  have nz: "\<forall>(k, e1, e2)\<in>set (pair_list ascii_lower ?neg). min (mid (snd e1)) (mid (snd e2)) \<noteq> 0"
    by (simp add: pl mids)
  from negative_mid_takes_part [OF nz, of ?low]
  obtain opps where run: "process_prices ascii_lower ?low ?neg = Inr opps"
    and A: "\<forall>q1\<in>set ?neg. \<forall>q2\<in>set ?neg.
        mid q1 < 0 \<and> group_key ascii_lower q2 = group_key ascii_lower q1 \<and> platform q1 \<noteq> platform q2 \<and>
        q1 = last (filter (\<lambda>r. group_key ascii_lower r = group_key ascii_lower q1 \<and> platform r = platform q1) ?neg) \<and>
        q2 = last (filter (\<lambda>r. group_key ascii_lower r = group_key ascii_lower q1 \<and> platform r = platform q2) ?neg)
        \<longrightarrow>
          ((\<exists>opp\<in>set opps. event opp = group_key ascii_lower q1 \<and>
                {buy_platform opp, sell_platform opp} = {platform q1, platform q2})
             \<longleftrightarrow> min_spread ?low \<le>
                   ((max (mid q1) (mid q2) - min (mid q1) (mid q2)) / min (mid q1) (mid q2)) * 100
                     - 2 * fee_pct ?low) \<and>
          (\<forall>opp\<in>set opps. event opp = group_key ascii_lower q1 \<and>
                {buy_platform opp, sell_platform opp} = {platform q1, platform q2}
             \<longrightarrow> buy_price opp = min (mid q1) (mid q2) \<and> buy_price opp < 0 \<and>
                 sell_price opp = max (mid q1) (mid q2))"
    by (elim exE conjE)
  have m1: "quote_negative \<in> set ?neg" and m2: "quote_negative_other \<in> set ?neg" by simp_all
  have hyp: "mid quote_negative < 0 \<and>
        group_key ascii_lower quote_negative_other = group_key ascii_lower quote_negative \<and>
        platform quote_negative \<noteq> platform quote_negative_other \<and>
        quote_negative = last (filter (\<lambda>r. group_key ascii_lower r = group_key ascii_lower quote_negative \<and>
                                       platform r = platform quote_negative) ?neg) \<and>
        quote_negative_other = last (filter (\<lambda>r. group_key ascii_lower r = group_key ascii_lower quote_negative \<and>
                                       platform r = platform quote_negative_other) ?neg)"
    by (simp add: mids keys plat)
  note inst = mp [OF bspec [OF bspec [OF A m1] m2] hyp]
  have thr: "min_spread ?low \<le>
      ((max (mid quote_negative) (mid quote_negative_other) - min (mid quote_negative) (mid quote_negative_other))
         / min (mid quote_negative) (mid quote_negative_other)) * 100 - 2 * fee_pct ?low"
    by (simp add: mids)
  from conjunct1 [OF inst] thr obtain opp where mem: "opp \<in> set opps"
    and ev: "event opp = group_key ascii_lower quote_negative \<and>
             {buy_platform opp, sell_platform opp} = {platform quote_negative, platform quote_negative_other}"
    by blast
  from mp [OF bspec [OF conjunct2 [OF inst] mem] ev]
  have pr: "buy_price opp = min (mid quote_negative) (mid quote_negative_other) \<and> buy_price opp < 0 \<and>
        sell_price opp = max (mid quote_negative) (mid quote_negative_other)" .
  from ev have ev': "event opp = ?k \<and> {buy_platform opp, sell_platform opp} = {''Kalshi'', ''Polymarket''}"
    by (simp only: keys plat)
  from pr have pr': "buy_price opp = - 0.4 \<and> buy_price opp < 0 \<and> sell_price opp = - 0.2"
    by (simp add: mids)
  from run mem ev' pr' have first: "\<exists>opps. process_prices ascii_lower ?low ?neg = Inr opps \<and>
           (\<exists>opp. opp \<in> set opps \<and> event opp = ?k \<and>
                  {buy_platform opp, sell_platform opp} = {''Kalshi'', ''Polymarket''} \<and>
                  buy_price opp = - 0.4 \<and> buy_price opp < 0 \<and> sell_price opp = - 0.2)"
    by blast
  let ?three = "[quote_kalshi, quote_polymarket, quote_negative_third]"
  let ?eng = "init_engine MIN_SPREAD_PCT"
  let ?opp = "\<lparr>event = ''will it rain|YES'', buy_platform = ''Kalshi'', buy_price = 0.41,
           sell_platform = ''Polymarket'', sell_price = 0.51, net_spread = 918 / 41\<rparr>"
  have run3: "process_prices ascii_lower ?eng ?three = Inr [?opp]"
    by (simp add: string_defs loop_defs body_defs quote_kalshi_def quote_polymarket_def
        quote_negative_third_def)
  have nz3: "\<forall>(k, e1, e2)\<in>set (pair_list ascii_lower ?three). min (mid (snd e1)) (mid (snd e2)) \<noteq> 0"
    by (simp add: string_defs loop_defs mid_def quote_kalshi_def quote_polymarket_def
        quote_negative_third_def)
  have thr3: "- 2 * fee_pct ?eng < min_spread ?eng"
    by (simp add: init_engine_def MIN_SPREAD_PCT_def)
  from negative_mid_takes_part [OF nz3, of ?eng]
  obtain opps3 where r3: "process_prices ascii_lower ?eng ?three = Inr opps3"
    and B: "- 2 * fee_pct ?eng < min_spread ?eng \<longrightarrow>
        (\<forall>opp\<in>set opps3. 0 < buy_price opp \<and> buy_price opp < sell_price opp)"
    by (elim exE conjE)
  from r3 run3 have "opps3 = [?opp]" by (simp only: sum.inject)
  with mp [OF B thr3] have "\<forall>opp\<in>set [?opp]. 0 < buy_price opp \<and> buy_price opp < sell_price opp"
    by (simp only:)
  then have "0 < buy_price ?opp \<and> buy_price ?opp < sell_price ?opp"
    by (rule bspec) (rule list.set_intros(1))
  then have "0 < buy_price ?opp" by (rule conjunct1)
  with first run3 show ?thesis by (intro conjI)
qed

text \<open>
  Claim C2 as stated fails. With a threshold of -100 a pair of negative mid-prices is
  emitted with its negative prices; and with the default engine a later negative
  quote of a platform replaces that platform's valid quote, so that the opportunity
  found without it is lost.
\<close>

theorem negative_mid_not_excluded:
  "mid quote_negative < 0 \<and>
   process_prices ascii_lower \<lparr>min_spread = - 100, fee_pct = 1\<rparr> [quote_negative, quote_negative_other] =
     Inr [\<lparr>event = ''will it rain|YES'', buy_platform = ''Kalshi'', buy_price = - 0.4,
           sell_platform = ''Polymarket'', sell_price = - 0.2, net_spread = - 52\<rparr>] \<and>
   process_prices ascii_lower (init_engine MIN_SPREAD_PCT) [quote_kalshi, quote_negative, quote_polymarket]
     = Inr [] \<and>
   process_prices ascii_lower (init_engine MIN_SPREAD_PCT) [quote_kalshi, quote_polymarket] =
     Inr [\<lparr>event = ''will it rain|YES'', buy_platform = ''Kalshi'', buy_price = 0.41,
           sell_platform = ''Polymarket'', sell_price = 0.51, net_spread = 918 / 41\<rparr>]"
  by (simp add: string_defs loop_defs body_defs quote_kalshi_def quote_polymarket_def
      quote_negative_other_def quote_negative_def)

subsection \<open>Fees\<close>

text \<open>
  Claim C8. For a fixed raw spread the net spread decreases as the fee grows: with
  fees \<open>f1 \<le> f2\<close> the net spread at \<open>f2\<close> is at most the net spread at \<open>f1\<close>, and
  so are the net spreads of the records the two engines emit for one pair.
\<close>

theorem net_spread_antitone_in_fee:
  "fee_pct e1 \<le> fee_pct e2 \<longrightarrow>
     net_of e2 r \<le> net_of e1 r \<and>
     (\<forall>o1 o2. compare_pair e1 k a b = Inr (Some o1) \<and> compare_pair e2 k a b = Inr (Some o2)
        \<longrightarrow> net_spread o2 \<le> net_spread o1)"
  by (auto simp: net_of_def compare_pair_Some_iff)

theorem net_spread_antitone_in_fee_witness:
  "net_of \<lparr>min_spread = 2.5, fee_pct = 3\<rparr> 10 \<le> net_of \<lparr>min_spread = 2.5, fee_pct = 1\<rparr> 10 \<and>
   net_of \<lparr>min_spread = 2.5, fee_pct = 3\<rparr> 10 = 4 \<and> net_of \<lparr>min_spread = 2.5, fee_pct = 1\<rparr> 10 = 8"
proof -
  have "fee_pct \<lparr>min_spread = 2.5, fee_pct = 1\<rparr> \<le> fee_pct \<lparr>min_spread = 2.5, fee_pct = 3\<rparr>"
    by simp
  with net_spread_antitone_in_fee [of "\<lparr>min_spread = 2.5, fee_pct = 1\<rparr>"
      "\<lparr>min_spread = 2.5, fee_pct = 3\<rparr>" 10]
  show ?thesis by (simp add: net_of_def)
qed

subsection \<open>Grouping and selection\<close>

text \<open>
  Claim C4, as amended. Here \<open>lower\<close> is \<^verbatim>\<open>str.lower\<close>, and two event names are
  equal case-insensitively when \<^verbatim>\<open>str.lower\<close> gives the same string for both, which
  is the comparison the code makes. Two quotes are among the pairs the loops range
  over only if they have the same key \<open>lower(event_name) + "|" + outcome\<close>; when
  neither outcome contains the separator, that is: only if their event names are
  equal case-insensitively and their outcomes are equal. All quotes with event names
  equal case-insensitively and equal outcomes are in the same group.
\<close>

theorem paired_only_within_key:
  "(\<forall>(k, (n1, p1), (n2, p2))\<in>set (pair_list lower prices).
      p1 \<in> set prices \<and> p2 \<in> set prices \<and> group_key lower p1 = k \<and> group_key lower p2 = k \<and>
      (CHR ''|'' \<notin> set (outcome p1) \<and> CHR ''|'' \<notin> set (outcome p2) \<longrightarrow>
         lower (event_name p1) = lower (event_name p2) \<and> outcome p1 = outcome p2)) \<and>
   (\<forall>q1\<in>set prices. \<forall>q2\<in>set prices.
      lower (event_name q1) = lower (event_name q2) \<and> outcome q1 = outcome q2 \<longrightarrow>
        (\<exists>eps. (group_key lower q1, eps) \<in> set (group_prices lower prices) \<and>
               q1 \<in> set eps \<and> q2 \<in> set eps))"
proof -
  have 1: "p1 \<in> set prices \<and> p2 \<in> set prices \<and> group_key lower p1 = k \<and> group_key lower p2 = k \<and>
      (CHR ''|'' \<notin> set (outcome p1) \<and> CHR ''|'' \<notin> set (outcome p2) \<longrightarrow>
         lower (event_name p1) = lower (event_name p2) \<and> outcome p1 = outcome p2)"
    if il: "(k, (n1, p1), (n2, p2)) \<in> set (pair_list lower prices)" for k n1 p1 n2 p2
  proof -
    note ent = pair_list_entry [OF il]
    from ent have "group_key lower p1 = group_key lower p2" by simp
    from group_key_inj [OF this] ent show ?thesis by blast
  qed
  have 2: "\<exists>eps. (group_key lower q1, eps) \<in> set (group_prices lower prices) \<and>
               q1 \<in> set eps \<and> q2 \<in> set eps"
    if q1: "q1 \<in> set prices" and q2: "q2 \<in> set prices"
      and same: "lower (event_name q1) = lower (event_name q2) \<and> outcome q1 = outcome q2"
    for q1 q2
  proof -
    define eps where "eps = filter (\<lambda>r. group_key lower r = group_key lower q1) prices"
    from same have k2: "group_key lower q2 = group_key lower q1" by (simp add: group_key_def)
    from q1 have "(group_key lower q1, eps) \<in> set (group_prices lower prices)"
      unfolding eps_def by (rule group_of_quote)
    moreover from q1 q2 k2 have "q1 \<in> set eps" "q2 \<in> set eps"
      by (simp_all add: eps_def)
    ultimately show ?thesis by blast
  qed
  from 1 2 show ?thesis by blast
qed

theorem paired_only_within_key_witness:
  "ascii_lower (event_name quote_kalshi) = ascii_lower (event_name quote_polymarket) \<and>
   outcome quote_kalshi = outcome quote_polymarket \<and>
   group_key ascii_lower quote_kalshi = ''will it rain|YES'' \<and>
   (''will it rain|YES'', (''Kalshi'', quote_kalshi), (''Polymarket'', quote_polymarket))
     \<in> set (pair_list ascii_lower [quote_kalshi, quote_polymarket]) \<and>
   (\<exists>eps. (group_key ascii_lower quote_kalshi, eps)
             \<in> set (group_prices ascii_lower [quote_kalshi, quote_polymarket]) \<and>
          quote_kalshi \<in> set eps \<and> quote_polymarket \<in> set eps)"
proof -
  let ?prices = "[quote_kalshi, quote_polymarket]"
  have il: "(''will it rain|YES'', (''Kalshi'', quote_kalshi), (''Polymarket'', quote_polymarket))
     \<in> set (pair_list ascii_lower ?prices)"
    by (simp add: string_defs loop_defs quote_kalshi_def quote_polymarket_def)
  have bar: "CHR ''|'' \<notin> set (outcome quote_kalshi) \<and> CHR ''|'' \<notin> set (outcome quote_polymarket)"
    by (simp add: quote_kalshi_def quote_polymarket_def)
  note inst = paired_only_within_key [where lower = ascii_lower and prices = ?prices]
  note full = bspec [OF conjunct1 [OF inst] il, unfolded prod.case]
  from full bar have same: "ascii_lower (event_name quote_kalshi) = ascii_lower (event_name quote_polymarket) \<and>
        outcome quote_kalshi = outcome quote_polymarket"
    by blast
  from full have gk: "group_key ascii_lower quote_kalshi = ''will it rain|YES''" by blast
  have m1: "quote_kalshi \<in> set ?prices" and m2: "quote_polymarket \<in> set ?prices" by simp_all
  from mp [OF bspec [OF bspec [OF conjunct2 [OF inst] m1] m2] same]
  have grp: "\<exists>eps. (group_key ascii_lower quote_kalshi, eps) \<in> set (group_prices ascii_lower ?prices) \<and>
          quote_kalshi \<in> set eps \<and> quote_polymarket \<in> set eps" .
  from same gk il grp show ?thesis by (intro conjI) (elim conjE, assumption)+
qed

text \<open>
  Claim C4 as stated fails: the key is a concatenation, so the event name \<open>x|y\<close>
  with outcome \<open>z\<close> and the event name \<open>x\<close> with outcome \<open>y|z\<close> have the same
  key. The two quotes differ in outcome and in event name, and they are compared as
  a pair and emitted as an opportunity.
\<close>

theorem keys_collide_across_outcomes:
  "outcome quote_bar_in_name \<noteq> outcome quote_bar_in_outcome \<and>
   ascii_lower (event_name quote_bar_in_name) \<noteq> ascii_lower (event_name quote_bar_in_outcome) \<and>
   pair_list ascii_lower [quote_bar_in_name, quote_bar_in_outcome] =
     [(''x|y|z'', (''Kalshi'', quote_bar_in_name), (''Polymarket'', quote_bar_in_outcome))] \<and>
   process_prices ascii_lower (init_engine MIN_SPREAD_PCT) [quote_bar_in_name, quote_bar_in_outcome] =
     Inr [\<lparr>event = ''x|y|z'', buy_platform = ''Kalshi'', buy_price = 0.41,
           sell_platform = ''Polymarket'', sell_price = 0.51, net_spread = 918 / 41\<rparr>]"
  by (simp add: string_defs loop_defs body_defs quote_bar_in_name_def quote_bar_in_outcome_def)

text \<open>
  Claim C6. In every group the dictionary of platforms has one entry per platform,
  holding the last quote of that platform in input order, and the pairs compared are
  pairs of such entries of different platforms. When fewer than two distinct
  platforms quote a key, no pair is compared for it and no opportunity with that key
  is emitted.
\<close>

theorem one_quote_per_platform_last_wins:
  "(\<forall>(k, eps)\<in>set (group_prices lower prices).
      distinct (map fst (platform_items eps)) \<and>
      (\<forall>(n, q)\<in>set (platform_items eps).
         q = last (filter (\<lambda>r. group_key lower r = k \<and> platform r = n) prices))) \<and>
   (\<forall>(k, (n1, p1), (n2, p2))\<in>set (pair_list lower prices).
      n1 \<noteq> n2 \<and>
      p1 = last (filter (\<lambda>r. group_key lower r = k \<and> platform r = n1) prices) \<and>
      p2 = last (filter (\<lambda>r. group_key lower r = k \<and> platform r = n2) prices)) \<and>
   (card (platform ` {q \<in> set prices. group_key lower q = k}) < 2 \<longrightarrow>
      (\<forall>(k', e1, e2)\<in>set (pair_list lower prices). k' \<noteq> k) \<and>
      (\<forall>opps. process_prices lower eng prices = Inr opps \<longrightarrow> (\<forall>opp\<in>set opps. event opp \<noteq> k)))"
proof -
  have 1: "\<forall>(k, eps)\<in>set (group_prices lower prices).
      distinct (map fst (platform_items eps)) \<and>
      (\<forall>(n, q)\<in>set (platform_items eps).
         q = last (filter (\<lambda>r. group_key lower r = k \<and> platform r = n) prices))"
    using group_entry distinct_platform_items by blast
  have 2: "\<forall>(k, (n1, p1), (n2, p2))\<in>set (pair_list lower prices).
      n1 \<noteq> n2 \<and>
      p1 = last (filter (\<lambda>r. group_key lower r = k \<and> platform r = n1) prices) \<and>
      p2 = last (filter (\<lambda>r. group_key lower r = k \<and> platform r = n2) prices)"
    using pair_list_entry(1,2,3) [where lower = lower and prices = prices] by blast
  have 3: "(\<forall>(k', e1, e2)\<in>set (pair_list lower prices). k' \<noteq> k) \<and>
      (\<forall>opps. process_prices lower eng prices = Inr opps \<longrightarrow> (\<forall>opp\<in>set opps. event opp \<noteq> k))"
    if few: "card (platform ` {q \<in> set prices. group_key lower q = k}) < 2"
  proof -
    have a: "\<forall>(k', e1, e2)\<in>set (pair_list lower prices). k' \<noteq> k"
      using no_pair_for_small_group [OF few] by blast
    have b: "event opp \<noteq> k" if run: "process_prices lower eng prices = Inr opps" and mem: "opp \<in> set opps"
      for opps opp
    proof -
      from mem_opps [OF run] mem obtain k' e1 e2 where
        in_list: "(k', e1, e2) \<in> set (pair_list lower prices)" and
        c: "compare_pair eng k' e1 e2 = Inr (Some opp)" by blast
      from c have "event opp = k'" by (simp add: compare_pair_Some_iff)
      with in_list no_pair_for_small_group [OF few] show ?thesis by blast
    qed
    from a b show ?thesis by blast
  qed
  from 1 2 3 show ?thesis by blast
qed

theorem one_quote_per_platform_last_wins_witness:
  "pair_list ascii_lower [quote_kalshi, quote_polymarket, quote_kalshi_late] =
     [(''will it rain|YES'', (''Kalshi'', quote_kalshi_late), (''Polymarket'', quote_polymarket))] \<and>
   quote_kalshi_late = last (filter (\<lambda>r. group_key ascii_lower r = ''will it rain|YES'' \<and> platform r = ''Kalshi'')
                               [quote_kalshi, quote_polymarket, quote_kalshi_late]) \<and>
   process_prices ascii_lower (init_engine MIN_SPREAD_PCT) [quote_kalshi, quote_no_bid, quote_polymarket] =
     Inr [\<lparr>event = ''will it rain|YES'', buy_platform = ''Kalshi'', buy_price = 0.41,
           sell_platform = ''Polymarket'', sell_price = 0.51, net_spread = 918 / 41\<rparr>] \<and>
   event \<lparr>event = ''will it rain|YES'', buy_platform = ''Kalshi'', buy_price = 0.41,
           sell_platform = ''Polymarket'', sell_price = 0.51, net_spread = 918 / 41\<rparr>
     \<noteq> ''will it snow|YES''"
proof -
  let ?prices = "[quote_kalshi, quote_polymarket, quote_kalshi_late]"
  let ?prices' = "[quote_kalshi, quote_no_bid, quote_polymarket]"
  let ?k = "''will it rain|YES''"
  let ?k' = "''will it snow|YES''"
  let ?eng = "init_engine MIN_SPREAD_PCT"
  let ?opp = "\<lparr>event = ''will it rain|YES'', buy_platform = ''Kalshi'', buy_price = 0.41,
           sell_platform = ''Polymarket'', sell_price = 0.51, net_spread = 918 / 41\<rparr>"
  have pl: "pair_list ascii_lower ?prices = [(?k, (''Kalshi'', quote_kalshi_late), (''Polymarket'', quote_polymarket))]"
    by (simp add: string_defs loop_defs quote_kalshi_late_def quote_kalshi_def quote_polymarket_def)
  then have il: "(?k, (''Kalshi'', quote_kalshi_late), (''Polymarket'', quote_polymarket))
     \<in> set (pair_list ascii_lower ?prices)" by simp
  note part2 = conjunct1 [OF conjunct2 [OF one_quote_per_platform_last_wins [where lower = ascii_lower and prices = ?prices and k = ?k and eng = ?eng]]]
  from bspec [OF part2 il]
  have last: "quote_kalshi_late = last (filter (\<lambda>r. group_key ascii_lower r = ?k \<and> platform r = ''Kalshi'') ?prices)"
    by (simp only: prod.case)
  have gk: "group_key ascii_lower quote_kalshi \<noteq> ?k'" "group_key ascii_lower quote_no_bid = ?k'"
    "group_key ascii_lower quote_polymarket \<noteq> ?k'"
    by (simp_all add: string_defs quote_kalshi_def quote_no_bid_def quote_polymarket_def)
  from gk have "{q \<in> set ?prices'. group_key ascii_lower q = ?k'} = {quote_no_bid}"
    by auto
  then have "platform ` {q \<in> set ?prices'. group_key ascii_lower q = ?k'} = {platform quote_no_bid}"
    by (simp only: image_insert image_empty)
  then have few: "card (platform ` {q \<in> set ?prices'. group_key ascii_lower q = ?k'}) < 2"
    by (simp only: card.insert card.empty finite.emptyI empty_iff) simp
  have run: "process_prices ascii_lower ?eng ?prices' = Inr [?opp]"
    by (simp add: string_defs loop_defs body_defs quote_kalshi_def quote_no_bid_def quote_polymarket_def)
  note part3 = conjunct2 [OF conjunct2 [OF one_quote_per_platform_last_wins [where lower = ascii_lower and prices = ?prices' and k = ?k' and eng = ?eng]]]
  from mp [OF spec [OF conjunct2 [OF mp [OF part3 few]]] run]
  have "\<forall>opp\<in>set [?opp]. event opp \<noteq> ?k'" .
  then have "event ?opp \<noteq> ?k'" by (rule bspec) (rule list.set_intros(1))
  with pl last run show ?thesis by (intro conjI)
qed

subsection \<open>Emission\<close>

text \<open>
  Claim C3, as amended. On an input where no pair that the loops range over has lower
  mid-price 0, the call returns a list, and for every such pair, with buy mid-price
  \<open>b > 0\<close> and sell mid-price \<open>s\<close>: the list holds an opportunity for the pair (its
  key and its two platforms) if and only if
  \<open>((s - b) / b) * 100 - 2 * fee_pct \<ge> min_spread\<close>, and that opportunity carries
  exactly this value as its net spread, with \<open>b\<close> and \<open>s\<close> as its prices. The
  value is formed by the operations of the source, in their order.
\<close>

theorem emits_iff_net_spread_reaches_threshold:
  assumes nz: "\<forall>(k, e1, e2)\<in>set (pair_list lower prices). min (mid (snd e1)) (mid (snd e2)) \<noteq> 0"
      and pair: "(k, (n1, p1), (n2, p2)) \<in> set (pair_list lower prices)"
      and b: "b = min (mid p1) (mid p2)" and s: "s = max (mid p1) (mid p2)"
      and pos: "0 < b"
  shows "\<exists>opps. process_prices lower eng prices = Inr opps \<and>
           ((\<exists>opp\<in>set opps. event opp = k \<and> {buy_platform opp, sell_platform opp} = {n1, n2})
              \<longleftrightarrow> ((s - b) / b) * 100 - 2 * fee_pct eng \<ge> min_spread eng) \<and>
           (\<forall>opp\<in>set opps. event opp = k \<and> {buy_platform opp, sell_platform opp} = {n1, n2}
              \<longrightarrow> net_spread opp = ((s - b) / b) * 100 - 2 * fee_pct eng \<and>
                  buy_price opp = b \<and> sell_price opp = s)"
proof -
  define opps where "opps = concat (map (pair_opps eng) (pair_list lower prices))"
  from returns_if_no_zero [OF nz] have run: "process_prices lower eng prices = Inr opps"
    by (simp only: opps_def)
  from run pair_emission [OF run pair b s] show ?thesis by (intro exI [of _ opps] conjI) blast+
qed

theorem emits_iff_net_spread_reaches_threshold_witness:
  "\<exists>opps. process_prices ascii_lower (init_engine MIN_SPREAD_PCT) [quote_kalshi, quote_polymarket]
             = Inr opps \<and>
          (\<exists>opp. opp \<in> set opps \<and> event opp = ''will it rain|YES'' \<and>
                 {buy_platform opp, sell_platform opp} = {''Kalshi'', ''Polymarket''} \<and>
                 net_spread opp = ((0.51 - 0.41) / 0.41) * 100 - 2 * 1 \<and>
                 buy_price opp = 0.41 \<and> sell_price opp = 0.51)"
proof -
  let ?prices = "[quote_kalshi, quote_polymarket]"
  let ?eng = "init_engine MIN_SPREAD_PCT"
  let ?k = "''will it rain|YES''"
  have pl: "pair_list ascii_lower ?prices =
      [(?k, (''Kalshi'', quote_kalshi), (''Polymarket'', quote_polymarket))]"
    by (simp add: string_defs loop_defs quote_kalshi_def quote_polymarket_def)
  have mids: "mid quote_kalshi = 0.41" "mid quote_polymarket = 0.51"
    by (simp_all add: mid_def quote_kalshi_def quote_polymarket_def)
  have nz: "\<forall>(k, e1, e2)\<in>set (pair_list ascii_lower ?prices). min (mid (snd e1)) (mid (snd e2)) \<noteq> 0"
    by (simp add: pl mids)
  have il: "(?k, (''Kalshi'', quote_kalshi), (''Polymarket'', quote_polymarket))
      \<in> set (pair_list ascii_lower ?prices)"
    by (simp add: pl)
  have b: "(0.41 :: real) = min (mid quote_kalshi) (mid quote_polymarket)"
    and s: "(0.51 :: real) = max (mid quote_kalshi) (mid quote_polymarket)"
    by (simp_all add: mids)
  have pos: "(0 :: real) < 0.41" by simp
  from emits_iff_net_spread_reaches_threshold [OF nz il b s pos, of ?eng]
  obtain opps where run: "process_prices ascii_lower ?eng ?prices = Inr opps"
    and iff: "(\<exists>opp\<in>set opps. event opp = ?k \<and> {buy_platform opp, sell_platform opp} = {''Kalshi'', ''Polymarket''})
              \<longleftrightarrow> min_spread ?eng \<le> ((0.51 - 0.41) / 0.41) * 100 - 2 * fee_pct ?eng"
    and carries: "\<forall>opp\<in>set opps. event opp = ?k \<and> {buy_platform opp, sell_platform opp} = {''Kalshi'', ''Polymarket''}
              \<longrightarrow> net_spread opp = ((0.51 - 0.41) / 0.41) * 100 - 2 * fee_pct ?eng \<and>
                  buy_price opp = 0.41 \<and> sell_price opp = 0.51"
    by (elim exE conjE)
  have thr: "min_spread ?eng \<le> ((0.51 - 0.41) / 0.41) * 100 - 2 * fee_pct ?eng"
    by (simp add: init_engine_def MIN_SPREAD_PCT_def)
  have fee: "fee_pct ?eng = 1" by (simp add: init_engine_def)
  from iff thr obtain opp where mem: "opp \<in> set opps"
    and ev: "event opp = ?k \<and> {buy_platform opp, sell_platform opp} = {''Kalshi'', ''Polymarket''}"
    by blast
  from bspec [OF carries mem] ev
  have "net_spread opp = ((0.51 - 0.41) / 0.41) * 100 - 2 * fee_pct ?eng \<and>
        buy_price opp = 0.41 \<and> sell_price opp = 0.51"
    by (rule mp)
  with fee have "net_spread opp = ((0.51 - 0.41) / 0.41) * 100 - 2 * 1 \<and>
        buy_price opp = 0.41 \<and> sell_price opp = 0.51"
    by (simp only:)
  with run mem ev show ?thesis by blast
qed

text \<open>
  Claim C3 as stated fails. The first pair compared has buy mid-price 0.41, its net
  spread reaches the threshold and the loop body appends its opportunity; the pair of
  the next group has lower mid-price 0, the call raises, and no opportunity is
  emitted for the first pair.
\<close>

theorem compared_pair_lost_when_call_raises:
  "pair_list ascii_lower [quote_kalshi, quote_polymarket, quote_zero_snow, quote_snow_other] =
     [(''will it rain|YES'', (''Kalshi'', quote_kalshi), (''Polymarket'', quote_polymarket)),
      (''will it snow|YES'', (''Kalshi'', quote_zero_snow), (''Polymarket'', quote_snow_other))] \<and>
   0 < min (mid quote_kalshi) (mid quote_polymarket) \<and>
   min_spread (init_engine MIN_SPREAD_PCT)
     \<le> ((max (mid quote_kalshi) (mid quote_polymarket) - min (mid quote_kalshi) (mid quote_polymarket))
          / min (mid quote_kalshi) (mid quote_polymarket)) * 100
        - 2 * fee_pct (init_engine MIN_SPREAD_PCT) \<and>
   compare_pair (init_engine MIN_SPREAD_PCT) ''will it rain|YES''
       (''Kalshi'', quote_kalshi) (''Polymarket'', quote_polymarket) =
     Inr (Some \<lparr>event = ''will it rain|YES'', buy_platform = ''Kalshi'', buy_price = 0.41,
                sell_platform = ''Polymarket'', sell_price = 0.51, net_spread = 918 / 41\<rparr>) \<and>
   process_prices ascii_lower (init_engine MIN_SPREAD_PCT)
       [quote_kalshi, quote_polymarket, quote_zero_snow, quote_snow_other]
     = Inl ZeroDivisionError"
  by (simp add: string_defs loop_defs body_defs quote_kalshi_def quote_polymarket_def
      quote_zero_snow_def quote_snow_other_def)

text \<open>
  Claim C5. Every opportunity emitted has \<open>buy_price \<le> sell_price\<close>: its buy
  price is the lower and its sell price the higher mid-price of the pair it comes
  from, and its platform labels are those of the quotes with these mid-prices.
\<close>

theorem buy_side_is_lower_mid:
  assumes run: "process_prices lower eng prices = Inr opps"
      and mem: "opp \<in> set opps"
  shows "buy_price opp \<le> sell_price opp \<and>
         (\<exists>(k, (n1, p1), (n2, p2))\<in>set (pair_list lower prices).
            event opp = k \<and>
            buy_price opp = min (mid p1) (mid p2) \<and> sell_price opp = max (mid p1) (mid p2) \<and>
            (if mid p1 > mid p2
             then buy_platform opp = n2 \<and> sell_platform opp = n1
             else buy_platform opp = n1 \<and> sell_platform opp = n2)) \<and>
         (\<exists>qb\<in>set prices. \<exists>qs\<in>set prices.
            buy_platform opp = platform qb \<and> buy_price opp = mid qb \<and>
            sell_platform opp = platform qs \<and> sell_price opp = mid qs \<and>
            platform qb \<noteq> platform qs \<and> mid qb \<le> mid qs)"
proof -
  from mem_opps [OF run] mem obtain k e1 e2 where
    in_list: "(k, e1, e2) \<in> set (pair_list lower prices)" and
    c: "compare_pair eng k e1 e2 = Inr (Some opp)" by blast
  obtain n1 p1 n2 p2 where e: "e1 = (n1, p1)" "e2 = (n2, p2)" by (cases e1, cases e2) auto
  from in_list e have il: "(k, (n1, p1), (n2, p2)) \<in> set (pair_list lower prices)" by simp
  from c e have opp: "event opp = k" "buy_price opp = min (mid p1) (mid p2)"
    "sell_price opp = max (mid p1) (mid p2)"
    "buy_platform opp = (if mid p1 > mid p2 then n2 else n1)"
    "sell_platform opp = (if mid p1 > mid p2 then n1 else n2)"
    by (simp_all add: compare_pair_Some_iff)
  from opp have 1: "buy_price opp \<le> sell_price opp" by simp
  from il opp have 2: "\<exists>(k, (n1, p1), (n2, p2))\<in>set (pair_list lower prices).
            event opp = k \<and>
            buy_price opp = min (mid p1) (mid p2) \<and> sell_price opp = max (mid p1) (mid p2) \<and>
            (if mid p1 > mid p2
             then buy_platform opp = n2 \<and> sell_platform opp = n1
             else buy_platform opp = n1 \<and> sell_platform opp = n2)"
    by (intro bexI [of _ "(k, (n1, p1), (n2, p2))"]) simp_all
  note ent = pair_list_entry [OF il]
  have 3: "\<exists>qb\<in>set prices. \<exists>qs\<in>set prices.
            buy_platform opp = platform qb \<and> buy_price opp = mid qb \<and>
            sell_platform opp = platform qs \<and> sell_price opp = mid qs \<and>
            platform qb \<noteq> platform qs \<and> mid qb \<le> mid qs"
  proof (cases "mid p1 > mid p2")
    case True
    with opp ent show ?thesis
      by (intro bexI [of _ p2] bexI [of _ p1]) (simp_all add: min_def max_def)
  next
    case False
    with opp ent show ?thesis
      by (intro bexI [of _ p1] bexI [of _ p2]) (simp_all add: min_def max_def)
  qed
  from 1 2 3 show ?thesis by blast
qed

theorem buy_side_is_lower_mid_witness:
  "buy_price \<lparr>event = ''will it rain|YES'', buy_platform = ''Kalshi'', buy_price = 0.41,
        sell_platform = ''Polymarket'', sell_price = 0.51, net_spread = 918 / 41\<rparr>
   \<le> sell_price \<lparr>event = ''will it rain|YES'', buy_platform = ''Kalshi'', buy_price = 0.41,
        sell_platform = ''Polymarket'', sell_price = 0.51, net_spread = 918 / 41\<rparr>"
proof -
  let ?opp = "\<lparr>event = ''will it rain|YES'', buy_platform = ''Kalshi'', buy_price = 0.41,
        sell_platform = ''Polymarket'', sell_price = 0.51, net_spread = 918 / 41\<rparr>"
  have run: "process_prices ascii_lower (init_engine MIN_SPREAD_PCT) [quote_polymarket, quote_kalshi] = Inr [?opp]"
    by (simp add: string_defs loop_defs body_defs quote_kalshi_def quote_polymarket_def)
  have mem: "?opp \<in> set [?opp]" by simp
  from buy_side_is_lower_mid [OF run mem] show ?thesis by blast
qed

end
